theory Spec2Isabelle
  imports Main "HOL-Library.AList"
begin

section \<open>fix\_swagger.py: removing empty 200 responses next to a 201\<close>

text \<open>
  The script loads \<^verbatim>\<open>swagger.json.new\<close>, walks \<^verbatim>\<open>spec['paths']\<close>, deletes the
  \<^verbatim>\<open>'200'\<close> response of every operation that also has a \<^verbatim>\<open>'201'\<close> response and whose
  \<^verbatim>\<open>'200'\<close> content is empty, writes the document to \<^verbatim>\<open>swagger.json\<close> and prints
  what it did. The model below follows the script line by line.
\<close>

subsection \<open>Values produced by \<^verbatim>\<open>json.load\<close>\<close>

text \<open>
  A Python \<^verbatim>\<open>float\<close> is kept as sign, significand and exponent (or an infinity, or
  NaN); the script only ever asks whether it is zero. Both zeros have significand 0.
\<close>

datatype pyfloat = Finite bool nat int | Infinity bool | NaN

text \<open>
  \<^verbatim>\<open>json.load\<close> returns \<^verbatim>\<open>None\<close>, \<^verbatim>\<open>bool\<close>, \<^verbatim>\<open>int\<close>, \<^verbatim>\<open>float\<close>, \<^verbatim>\<open>str\<close>, \<^verbatim>\<open>list\<close> and \<^verbatim>\<open>dict\<close>
  objects. A \<^verbatim>\<open>dict\<close> keeps its keys in insertion order, so it is an association list;
  the keys of a Python \<^verbatim>\<open>dict\<close> are distinct, lookup reads the first entry of a key,
  and deletion removes the key altogether. Every object of a loaded document is
  fresh (no two places of the tree share a \<^verbatim>\<open>dict\<close>), so mutation in place is the
  replacement of a subtree.
\<close>

datatype json =
    JNull
  | JBool bool
  | JInt int
  | JFloat pyfloat
  | JStr string
  | JList "json list"
  | JDict "(string \<times> json) list"

datatype error =
    FileNotFoundError
  | PermissionError
  | JSONDecodeError
  | AttributeError
  | TypeError
  | KeyError

text \<open>Truth value of an object, as \<^verbatim>\<open>not x\<close> tests it.\<close>

fun truthy :: "json \<Rightarrow> bool" where
  "truthy JNull = False"
| "truthy (JBool b) = b"
| "truthy (JInt i) = (i \<noteq> 0)"
| "truthy (JFloat (Finite neg m e)) = (m \<noteq> 0)"
| "truthy (JFloat (Infinity neg)) = True"
| "truthy (JFloat NaN) = True"
| "truthy (JStr s) = (s \<noteq> [])"
| "truthy (JList xs) = (xs \<noteq> [])"
| "truthy (JDict kvs) = (kvs \<noteq> [])"

text \<open>\<^verbatim>\<open>isinstance(x, dict)\<close>\<close>

fun isinstance_dict :: "json \<Rightarrow> bool" where
  "isinstance_dict (JDict kvs) = True"
| "isinstance_dict _ = False"

text \<open>\<^verbatim>\<open>sub in s\<close> for two strings: \<^verbatim>\<open>sub\<close> occurs in \<^verbatim>\<open>s\<close> as a contiguous piece.\<close>

fun str_contains :: "string \<Rightarrow> string \<Rightarrow> bool" where
  "str_contains sub [] = (sub = [])"
| "str_contains sub (c # cs) = (take (length sub) (c # cs) = sub \<or> str_contains sub cs)"

text \<open>
  \<^verbatim>\<open>k in x\<close> for a string \<^verbatim>\<open>k\<close>: key membership on a \<^verbatim>\<open>dict\<close>, element membership on a
  \<^verbatim>\<open>list\<close>, substring test on a \<^verbatim>\<open>str\<close>, and \<^verbatim>\<open>TypeError\<close> (argument is not iterable)
  on \<^verbatim>\<open>None\<close>, \<^verbatim>\<open>bool\<close>, \<^verbatim>\<open>int\<close> and \<^verbatim>\<open>float\<close>.
\<close>

fun py_in :: "string \<Rightarrow> json \<Rightarrow> error + bool" where
  "py_in k (JDict kvs) = Inr (k \<in> fst ` set kvs)"
| "py_in k (JList xs) = Inr (JStr k \<in> set xs)"
| "py_in k (JStr s) = Inr (str_contains k s)"
| "py_in k _ = Inl TypeError"

text \<open>
  \<^verbatim>\<open>x[k]\<close> for a string \<^verbatim>\<open>k\<close>: lookup on a \<^verbatim>\<open>dict\<close> (\<^verbatim>\<open>KeyError\<close> when the key is
  missing), \<^verbatim>\<open>TypeError\<close> on everything else (a \<^verbatim>\<open>list\<close> and a \<^verbatim>\<open>str\<close> want integer
  indices, the other objects are not subscriptable).
\<close>

fun py_getitem :: "json \<Rightarrow> string \<Rightarrow> error + json" where
  "py_getitem (JDict kvs) k = (case map_of kvs k of None \<Rightarrow> Inl KeyError | Some v \<Rightarrow> Inr v)"
| "py_getitem _ k = Inl TypeError"

text \<open>\<^verbatim>\<open>d.get(k, dflt)\<close> on the entries of a \<^verbatim>\<open>dict\<close>.\<close>

definition dict_get :: "(string \<times> json) list \<Rightarrow> string \<Rightarrow> json \<Rightarrow> json" where
  "dict_get kvs k dflt = (case map_of kvs k of None \<Rightarrow> dflt | Some v \<Rightarrow> v)"

subsection \<open>Text of the printed lines\<close>

text \<open>
  \<^verbatim>\<open>str.upper\<close>, on the letters \<^verbatim>\<open>a\<close> to \<^verbatim>\<open>z\<close>. A \<^typ>\<open>char\<close> is a byte; bytes outside
  \<^verbatim>\<open>a\<close> to \<^verbatim>\<open>z\<close> are kept (Python also maps the non-ASCII letters, which HTTP method
  names do not have).
\<close>

definition char_upper :: "char \<Rightarrow> char" where
  "char_upper c =
     (case map_of (zip ''abcdefghijklmnopqrstuvwxyz'' ''ABCDEFGHIJKLMNOPQRSTUVWXYZ'') c of
        None \<Rightarrow> c
      | Some u \<Rightarrow> u)"

definition upper :: "string \<Rightarrow> string" where
  "upper s = map char_upper s"

text \<open>\<^verbatim>\<open>str(n)\<close> for a natural number: its decimal digits.\<close>

definition digit :: "nat \<Rightarrow> char" where
  "digit d = ''0123456789'' ! d"

function str_nat :: "nat \<Rightarrow> string" where
  "str_nat n = (if n < 10 then [digit n] else str_nat (n div 10) @ [digit (n mod 10)])"
  by pat_completeness auto
termination
  by (relation "measure id") auto

declare str_nat.simps [simp del]

text \<open>Line 27: \<^verbatim>\<open>f"Removed empty 200 from {method.upper()} {path}"\<close>\<close>

definition removed_line :: "string \<Rightarrow> string \<Rightarrow> string" where
  "removed_line method path = ''Removed empty 200 from '' @ upper method @ '' '' @ path"

text \<open>Line 31: \<^verbatim>\<open>f"Fixed {count} endpoints. Saved to swagger.json"\<close>\<close>

definition fixed_line :: "nat \<Rightarrow> string" where
  "fixed_line n = ''Fixed '' @ str_nat n @ '' endpoints. Saved to swagger.json''"

subsection \<open>The loop, lines 10 to 27\<close>

text \<open>
  The variables the loop updates besides the document: the counter \<^verbatim>\<open>count\<close> and the
  lines printed so far.
\<close>

record st =
  count :: nat
  out :: "string list"

text \<open>
  Lines 22 to 24, the test on \<^verbatim>\<open>content\<close>:
  \<^verbatim>\<open>not content or (isinstance(content, dict) and 'application/json' in content
     and not content['application/json'])\<close>
\<close>

definition content_is_empty :: "json \<Rightarrow> bool" where
  "content_is_empty content =
     (\<not> truthy content \<or>
      (case content of
         JDict c \<Rightarrow>
           (case map_of c ''application/json'' of
              None \<Rightarrow> False
            | Some v \<Rightarrow> \<not> truthy v)
       | _ \<Rightarrow> False))"

text \<open>
  Lines 17 to 25 on the object \<^verbatim>\<open>responses\<close>: the result is \<^verbatim>\<open>Some\<close> of the object
  after \<^verbatim>\<open>del responses['200']\<close> when line 25 runs, \<^verbatim>\<open>None\<close> when it does not, and the
  exception when \<^verbatim>\<open>in\<close> or the subscript raises. \<^verbatim>\<open>and\<close> does not evaluate
  \<^verbatim>\<open>'200' in responses\<close> when \<^verbatim>\<open>'201' in responses\<close> is false. Line 25 is reached
  only after \<^verbatim>\<open>responses['200']\<close> has returned, so \<^verbatim>\<open>responses\<close> is a \<^verbatim>\<open>dict\<close> there; the
  last \<^verbatim>\<open>TypeError\<close> below stands for \<^verbatim>\<open>del\<close> on another object and is never the result.
\<close>

definition fix_responses :: "json \<Rightarrow> error + json option" where
  "fix_responses responses =
     (case py_in ''201'' responses of
        Inl e \<Rightarrow> Inl e
      | Inr has201 \<Rightarrow>
          if \<not> has201 then Inr None
          else
            (case py_in ''200'' responses of
               Inl e \<Rightarrow> Inl e
             | Inr has200 \<Rightarrow>
                 if \<not> has200 then Inr None
                 else
                   (case py_getitem responses ''200'' of
                      Inl e \<Rightarrow> Inl e
                    | Inr r200 \<Rightarrow>
                        (case r200 of
                           JDict r \<Rightarrow>
                             if content_is_empty (dict_get r ''content'' (JDict []))
                             then
                               (case responses of
                                  JDict rs \<Rightarrow> Inr (Some (JDict (AList.delete ''200'' rs)))
                                | _ \<Rightarrow> Inl TypeError)
                             else Inr None
                         | _ \<Rightarrow> Inr None))))"

text \<open>
  Lines 14 to 27, the body of the inner loop for one \<^verbatim>\<open>(method, details)\<close> item. The
  result is the exception raised (if any), the object \<^verbatim>\<open>details\<close> as the body leaves
  it, and the variables.
\<close>

definition visit :: "string \<Rightarrow> string \<Rightarrow> json \<Rightarrow> st \<Rightarrow> error option \<times> json \<times> st" where
  "visit path method details s =
     (case details of
        JDict d \<Rightarrow>
          (case map_of d ''responses'' of
             None \<Rightarrow> (None, details, s)
           | Some responses \<Rightarrow>
               (case fix_responses responses of
                  Inl e \<Rightarrow> (Some e, details, s)
                | Inr None \<Rightarrow> (None, details, s)
                | Inr (Some responses') \<Rightarrow>
                    (None, JDict (AList.update ''responses'' responses' d),
                     s\<lparr>count := count s + 1, out := out s @ [removed_line method path]\<rparr>)))
      | _ \<Rightarrow> (None, details, s))"

text \<open>
  Line 13, \<^verbatim>\<open>for method, details in methods.items()\<close>, over the items of one path. An
  exception leaves the loop; the items not reached stay as they are.
\<close>

fun loop_methods ::
  "string \<Rightarrow> (string \<times> json) list \<Rightarrow> st \<Rightarrow> error option \<times> (string \<times> json) list \<times> st" where
  "loop_methods path [] s = (None, [], s)"
| "loop_methods path ((method, details) # rest) s =
     (case visit path method details s of
        (Some e, details', s') \<Rightarrow> (Some e, (method, details') # rest, s')
      | (None, details', s') \<Rightarrow>
          (case loop_methods path rest s' of
             (err, rest', s'') \<Rightarrow> (err, (method, details') # rest', s'')))"

text \<open>
  Line 12, \<^verbatim>\<open>for path, methods in ....items()\<close>. \<^verbatim>\<open>methods.items()\<close> raises
  \<^verbatim>\<open>AttributeError\<close> when \<^verbatim>\<open>methods\<close> is not a \<^verbatim>\<open>dict\<close>.
\<close>

fun loop_paths ::
  "(string \<times> json) list \<Rightarrow> st \<Rightarrow> error option \<times> (string \<times> json) list \<times> st" where
  "loop_paths [] s = (None, [], s)"
| "loop_paths ((path, methods) # rest) s =
     (case methods of
        JDict ms \<Rightarrow>
          (case loop_methods path ms s of
             (Some e, ms', s') \<Rightarrow> (Some e, (path, JDict ms') # rest, s')
           | (None, ms', s') \<Rightarrow>
               (case loop_paths rest s' of
                  (err, rest', s'') \<Rightarrow> (err, (path, JDict ms') # rest', s'')))
      | _ \<Rightarrow> (Some AttributeError, (path, methods) # rest, s))"

text \<open>
  Lines 10 to 27 on the loaded document. \<^verbatim>\<open>spec.get\<close> raises \<^verbatim>\<open>AttributeError\<close> when
  \<^verbatim>\<open>spec\<close> is not a \<^verbatim>\<open>dict\<close>, and so does \<^verbatim>\<open>.items()\<close> when the value of \<^verbatim>\<open>'paths'\<close> is
  not one. Without the key \<^verbatim>\<open>'paths'\<close> the loop runs over the items of a new empty
  \<^verbatim>\<open>dict\<close>. The result is the exception (if any), the document and the variables as
  the loop leaves them.
\<close>

definition normalize_pass :: "json \<Rightarrow> error option \<times> json \<times> st" where
  "normalize_pass spec =
     (let s0 = \<lparr>count = 0, out = []\<rparr> in
      case spec of
        JDict root \<Rightarrow>
          (case map_of root ''paths'' of
             None \<Rightarrow> (None, spec, s0)
           | Some (JDict paths) \<Rightarrow>
               (case loop_paths paths s0 of
                  (err, paths', s) \<Rightarrow>
                    (err, JDict (AList.update ''paths'' (JDict paths') root), s))
           | Some _ \<Rightarrow> (Some AttributeError, spec, s0))
      | _ \<Rightarrow> (Some AttributeError, spec, s0))"

subsection \<open>The script\<close>

text \<open>
  What the script sees of the machine: the files of its own directory by name (line 5
  changes to that directory before any file is opened), the names it may not open for
  writing, and the lines on standard output. The text of a file has type \<^typ>\<open>'b\<close>.
\<close>

record 'b world =
  files :: "string \<rightharpoonup> 'b"
  read_only :: "string set"
  stdout :: "string list"

text \<open>
  The whole script. \<^verbatim>\<open>json.load\<close> and \<^verbatim>\<open>json.dump(..., indent=2)\<close> belong to Python's
  library and are parameters: \<open>json_load\<close> gives \<^verbatim>\<open>None\<close> on a text it rejects
  (\<^verbatim>\<open>JSONDecodeError\<close>), \<open>json_dump\<close> is the text written for a document. The result is
  the exception that ended the run (if any) and the machine afterwards.
\<close>

definition main ::
  "('b \<Rightarrow> json option) \<Rightarrow> (json \<Rightarrow> 'b) \<Rightarrow> 'b world \<Rightarrow> error option \<times> 'b world" where
  "main json_load json_dump w =
     (case files w ''swagger.json.new'' of
        None \<Rightarrow> (Some FileNotFoundError, w)
      | Some text \<Rightarrow>
          (case json_load text of
             None \<Rightarrow> (Some JSONDecodeError, w)
           | Some spec \<Rightarrow>
               (case normalize_pass spec of
                  (Some e, spec', s) \<Rightarrow> (Some e, w\<lparr>stdout := stdout w @ out s\<rparr>)
                | (None, spec', s) \<Rightarrow>
                    if ''swagger.json'' \<in> read_only w
                    then (Some PermissionError, w\<lparr>stdout := stdout w @ out s\<rparr>)
                    else
                      (None,
                       w\<lparr>files := (files w)(''swagger.json'' \<mapsto> json_dump spec'),
                         stdout := stdout w @ out s @ [fixed_line (count s)]\<rparr>))))"

section \<open>Notions used to state the properties\<close>

text \<open>The items of a \<^verbatim>\<open>dict\<close>; no items for any other object.\<close>

fun items :: "json \<Rightarrow> (string \<times> json) list" where
  "items (JDict kvs) = kvs"
| "items _ = []"

text \<open>
  The removal condition on an object \<^verbatim>\<open>responses\<close>: it is a mapping with the keys
  \<^verbatim>\<open>'201'\<close> and \<^verbatim>\<open>'200'\<close>, the value at \<^verbatim>\<open>'200'\<close> is a mapping, and the content of
  that mapping passes the test of lines 22 to 24.
\<close>

definition removable :: "json \<Rightarrow> bool" where
  "removable responses =
     (case responses of
        JDict r \<Rightarrow>
          ''201'' \<in> fst ` set r \<and>
          (case map_of r ''200'' of
             Some (JDict r200) \<Rightarrow> content_is_empty (dict_get r200 ''content'' (JDict []))
           | _ \<Rightarrow> False)
      | _ \<Rightarrow> False)"

text \<open>An operation (the value of a method) with \<^verbatim>\<open>responses\<close> that meet the condition.\<close>

definition removable_op :: "json \<Rightarrow> bool" where
  "removable_op details =
     (case details of
        JDict d \<Rightarrow>
          (case map_of d ''responses'' of
             None \<Rightarrow> False
           | Some responses \<Rightarrow> removable responses)
      | _ \<Rightarrow> False)"

text \<open>The operation with the key \<^verbatim>\<open>'200'\<close> deleted from its \<^verbatim>\<open>responses\<close>.\<close>

definition delete_200 :: "json \<Rightarrow> json" where
  "delete_200 details =
     (case details of
        JDict d \<Rightarrow>
          (case map_of d ''responses'' of
             Some (JDict r) \<Rightarrow>
               JDict (AList.update ''responses'' (JDict (AList.delete ''200'' r)) d)
           | _ \<Rightarrow> details)
      | _ \<Rightarrow> details)"

text \<open>The exception that lines 17 and 18 raise on an operation, if any.\<close>

definition op_error :: "json \<Rightarrow> error option" where
  "op_error details =
     (case details of
        JDict d \<Rightarrow>
          (case map_of d ''responses'' of
             None \<Rightarrow> None
           | Some responses \<Rightarrow>
               (case fix_responses responses of Inl e \<Rightarrow> Some e | Inr r \<Rightarrow> None))
      | _ \<Rightarrow> None)"

subsection \<open>What may differ between the input and the output document\<close>

text \<open>
  \<open>same_but R x y\<close>: \<open>y\<close> is \<open>x\<close>, or both are mappings with the same keys in the
  same order, and the two values at each key \<open>k\<close> are related by \<open>R k\<close>.
\<close>

definition same_but :: "(string \<Rightarrow> json \<Rightarrow> json \<Rightarrow> bool) \<Rightarrow> json \<Rightarrow> json \<Rightarrow> bool" where
  "same_but R x y \<longleftrightarrow>
     y = x \<or>
     (isinstance_dict x \<and> isinstance_dict y \<and>
      list_all2 (\<lambda>(k, v) (k', v'). k' = k \<and> R k v v') (items x) (items y))"

text \<open>
  A \<^verbatim>\<open>responses\<close> object is as before, or it met the removal condition and is now the
  same mapping without the key \<^verbatim>\<open>'200'\<close>.
\<close>

definition frame_responses :: "json \<Rightarrow> json \<Rightarrow> bool" where
  "frame_responses r r' \<longleftrightarrow>
     r' = r \<or> (removable r \<and> r' = JDict (filter (\<lambda>(k, v). k \<noteq> ''200'') (items r)))"

text \<open>An operation keeps every key; only the value at \<^verbatim>\<open>'responses'\<close> may differ, as above.\<close>

definition frame_operation :: "json \<Rightarrow> json \<Rightarrow> bool" where
  "frame_operation =
     same_but (\<lambda>k v v'. if k = ''responses'' then frame_responses v v' else v' = v)"

text \<open>The value of a path keeps every method; the value of \<^verbatim>\<open>'paths'\<close> keeps every path.\<close>

definition frame_methods :: "json \<Rightarrow> json \<Rightarrow> bool" where
  "frame_methods = same_but (\<lambda>method. frame_operation)"

definition frame_paths :: "json \<Rightarrow> json \<Rightarrow> bool" where
  "frame_paths = same_but (\<lambda>path. frame_methods)"

text \<open>The document keeps every top-level key; only the value at \<^verbatim>\<open>'paths'\<close> may differ.\<close>

definition frame_spec :: "json \<Rightarrow> json \<Rightarrow> bool" where
  "frame_spec = same_but (\<lambda>k v v'. if k = ''paths'' then frame_paths v v' else v' = v)"

subsection \<open>Operations of a document\<close>

text \<open>The items that line 12 iterates over: those of \<^verbatim>\<open>spec.get('paths', {})\<close>.\<close>

definition paths_items :: "json \<Rightarrow> (string \<times> json) list" where
  "paths_items spec = items (dict_get (items spec) ''paths'' (JDict []))"

text \<open>The operations of a document: the values of all methods of all paths, in order.\<close>

definition operations :: "json \<Rightarrow> json list" where
  "operations spec =
     concat (map (\<lambda>(path, methods). map snd (items methods)) (paths_items spec))"

text \<open>An operation whose \<^verbatim>\<open>responses\<close> is a mapping with both keys \<^verbatim>\<open>'201'\<close> and \<^verbatim>\<open>'200'\<close>.\<close>

definition has_201_and_200 :: "json \<Rightarrow> bool" where
  "has_201_and_200 details =
     (case details of
        JDict d \<Rightarrow>
          (case map_of d ''responses'' of
             Some (JDict r) \<Rightarrow> ''201'' \<in> fst ` set r \<and> ''200'' \<in> fst ` set r
           | _ \<Rightarrow> False)
      | _ \<Rightarrow> False)"

text \<open>
  The removals between two documents, read off the documents alone: the methods whose
  value differs, with their path, in the order of the document.
\<close>

definition changed_methods ::
  "(string \<times> json) list \<Rightarrow> (string \<times> json) list \<Rightarrow> string list" where
  "changed_methods ms ms' =
     map (fst \<circ> fst) (filter (\<lambda>(a, b). snd b \<noteq> snd a) (zip ms ms'))"

definition changed_paths ::
  "(string \<times> json) list \<Rightarrow> (string \<times> json) list \<Rightarrow> (string \<times> string) list" where
  "changed_paths ps ps' =
     concat (map (\<lambda>((path, methods), (path', methods')).
                    map (\<lambda>method. (method, path))
                      (changed_methods (items methods) (items methods')))
               (zip ps ps'))"

definition changed_operations :: "json \<Rightarrow> json \<Rightarrow> (string \<times> string) list" where
  "changed_operations spec spec' = changed_paths (paths_items spec) (paths_items spec')"

subsection \<open>Documents on which the loop raises nothing\<close>



text \<open>The definitions that evaluate the model on a given document.\<close>

lemmas eval_defs =
  normalize_pass_def visit_def fix_responses_def content_is_empty_def dict_get_def
  removed_line_def upper_def char_upper_def AList.delete_eq fixed_line_def
  str_nat.simps digit_def main_def

section \<open>The body of the loop\<close>

lemma map_of_Some_key: "map_of kvs k = Some v \<Longrightarrow> k \<in> fst ` set kvs"
  by (metis map_of_eq_None_iff option.distinct(1))

lemma key_map_of: "k \<in> fst ` set kvs \<Longrightarrow> \<exists>v. map_of kvs k = Some v"
  by (metis map_of_eq_None_iff not_Some_eq)

lemma content_is_empty_iff:
  "content_is_empty content \<longleftrightarrow>
     \<not> truthy content \<or>
     (\<exists>c v. content = JDict c \<and> map_of c ''application/json'' = Some v \<and> \<not> truthy v)"
  by (cases content) (auto simp: content_is_empty_def split: option.splits)

lemma fix_responses_dict:
  assumes "''201'' \<in> fst ` set r" and "map_of r ''200'' = Some (JDict r200)"
  shows "fix_responses (JDict r) =
     Inr (if content_is_empty (dict_get r200 ''content'' (JDict []))
          then Some (JDict (AList.delete ''200'' r)) else None)"
  using assms by (simp add: fix_responses_def map_of_Some_key)

lemma fix_responses_removable:
  "removable responses \<Longrightarrow>
     fix_responses responses = Inr (Some (JDict (AList.delete ''200'' (items responses))))"
  by (auto simp: removable_def fix_responses_def map_of_Some_key
      split: json.splits option.splits)

lemma fix_responses_not_removable:
  "\<not> removable responses \<Longrightarrow> fix_responses responses = Inr (Some r') \<Longrightarrow> False"
  by (cases responses)
    (auto simp: removable_def fix_responses_def map_of_Some_key
      split: json.splits option.splits if_splits sum.splits dest: key_map_of)

lemma visit_removable:
  "removable_op details \<Longrightarrow>
     visit path method details s =
       (None, delete_200 details,
        s\<lparr>count := count s + 1, out := out s @ [removed_line method path]\<rparr>)"
  by (auto simp: removable_op_def visit_def delete_200_def fix_responses_removable removable_def
      split: json.splits option.splits)

lemma visit_not_removable:
  "\<not> removable_op details \<Longrightarrow> visit path method details s = (op_error details, details, s)"
  by (auto simp: removable_op_def visit_def op_error_def
      split: json.splits option.splits sum.splits dest: fix_responses_not_removable)

lemma delete_200_changes:
  assumes "removable_op details"
  shows "delete_200 details \<noteq> details"
proof -
  from assms obtain d r where d: "details = JDict d" "map_of d ''responses'' = Some (JDict r)"
    and r: "''200'' \<in> fst ` set r"
    by (auto simp: removable_op_def removable_def map_of_Some_key
        split: json.splits option.splits)
  have "AList.update ''responses'' (JDict (AList.delete ''200'' r)) d \<noteq> d"
  proof
    assume "AList.update ''responses'' (JDict (AList.delete ''200'' r)) d = d"
    then have "map_of d ''responses'' = Some (JDict (AList.delete ''200'' r))"
      by (metis fun_upd_same update_conv')
    with d have "AList.delete ''200'' r = r" by simp
    with r show False by (metis delete_notin_dom)
  qed
  with d show ?thesis by (simp add: delete_200_def)
qed

lemma delete_200_stable:
  assumes "removable_op details"
  shows "\<not> removable_op (delete_200 details)" and "op_error (delete_200 details) = None"
proof -
  from assms obtain d r where d: "details = JDict d" "map_of d ''responses'' = Some (JDict r)"
    by (auto simp: removable_op_def removable_def split: json.splits option.splits)
  have *: "map_of (AList.update ''responses'' (JDict (AList.delete ''200'' r)) d) ''responses''
      = Some (JDict (AList.delete ''200'' r))"
    by (simp add: update_conv')
  have n: "''200'' \<notin> fst ` set (AList.delete ''200'' r)" by (rule delete_notin_dom)
  then have m: "map_of (AList.delete ''200'' r) ''200'' = None"
    by (simp add: map_of_eq_None_iff)
  show "\<not> removable_op (delete_200 details)"
    using d * m by (simp add: delete_200_def removable_op_def removable_def)
  show "op_error (delete_200 details) = None"
    using d * n by (simp add: delete_200_def op_error_def fix_responses_def)
qed

lemma visit_eq:
  "visit path method details s =
     (if removable_op details
      then (None, delete_200 details,
            s\<lparr>count := count s + 1, out := out s @ [removed_line method path]\<rparr>)
      else (op_error details, details, s))"
  by (simp add: visit_removable visit_not_removable)

lemma visit_again:
  "visit path method details s = (e, details', s') \<Longrightarrow>
   visit path' method' details' t = (e, details', t)"
  by (auto simp: visit_eq delete_200_stable split: if_splits)




section \<open>The loops\<close>

subsection \<open>A second run\<close>

lemma loop_methods_again:
  "loop_methods path ms s = (e, ms', s') \<Longrightarrow> loop_methods path ms' t = (e, ms', t)"
proof (induction ms arbitrary: s e ms' s' t)
  case Nil
  then show ?case by simp
next
  case (Cons a ms)
  obtain meth details where a: "a = (meth, details)" by (cases a)
  obtain e1 d1 s1 where v: "visit path meth details s = (e1, d1, s1)"
    by (cases "visit path meth details s")
  note again = visit_again [OF v, of path meth]
  show ?case
  proof (cases e1)
    case (Some err)
    with Cons.prems a v again show ?thesis by auto
  next
    case None
    obtain e2 r2 s2 where l: "loop_methods path ms s1 = (e2, r2, s2)"
      by (cases "loop_methods path ms s1")
    from Cons.IH [OF l] have "loop_methods path r2 t = (e2, r2, t)" for t .
    with Cons.prems a v None l again show ?thesis by auto
  qed
qed

lemma loop_paths_again:
  "loop_paths ps s = (e, ps', s') \<Longrightarrow> loop_paths ps' t = (e, ps', t)"
proof (induction ps arbitrary: s e ps' s' t)
  case Nil
  then show ?case by simp
next
  case (Cons a ps)
  obtain path methods where a: "a = (path, methods)" by (cases a)
  show ?case
  proof (cases methods)
    case (JDict ms)
    obtain e1 m1 s1 where v: "loop_methods path ms s = (e1, m1, s1)"
      by (cases "loop_methods path ms s")
    note again = loop_methods_again [OF v]
    show ?thesis
    proof (cases e1)
      case (Some err)
      with Cons.prems a JDict v again show ?thesis by auto
    next
      case None
      obtain e2 r2 s2 where l: "loop_paths ps s1 = (e2, r2, s2)"
        by (cases "loop_paths ps s1")
      from Cons.IH [OF l] have "loop_paths r2 t = (e2, r2, t)" for t .
      with Cons.prems a JDict v None l again show ?thesis by auto
    qed
  qed (use Cons.prems a in auto)
qed

subsection \<open>What the loops leave untouched\<close>

lemma same_but_refl: "same_but R x x"
  by (simp add: same_but_def)

lemma list_all2_same_keys_refl:
  "(\<And>k v. R k v v) \<Longrightarrow> list_all2 (\<lambda>(k, v) (k', v'). k' = k \<and> R k v v') kvs kvs"
  by (induction kvs) auto

lemma list_all2_update:
  assumes "map_of kvs k = Some v" and "P v v'" and "\<And>x. P x x"
  shows "list_all2 (\<lambda>(a, x) (b, y). b = a \<and> (if a = k then P x y else y = x))
           kvs (AList.update k v' kvs)"
  using assms(1)
proof (induction kvs)
  case Nil
  then show ?case by simp
next
  case (Cons a kvs)
  obtain a1 x1 where a: "a = (a1, x1)" by (cases a)
  show ?case
  proof (cases "a1 = k")
    case True
    with Cons.prems a have "x1 = v" by simp
    moreover have "list_all2 (\<lambda>(a, x) (b, y). b = a \<and> (if a = k then P x y else y = x)) kvs kvs"
      by (rule list_all2_same_keys_refl) (simp add: assms(3))
    ultimately show ?thesis using a True assms(2) by simp
  next
    case False
    with Cons a show ?thesis by simp
  qed
qed

lemma frame_responses_refl: "frame_responses r r"
  by (simp add: frame_responses_def)

lemma frame_operation_delete_200:
  assumes "removable_op details"
  shows "frame_operation details (delete_200 details)"
proof -
  from assms obtain d r where d: "details = JDict d" "map_of d ''responses'' = Some (JDict r)"
    and r: "removable (JDict r)"
    by (auto simp: removable_op_def removable_def split: json.splits option.splits)
  have "frame_responses (JDict r) (JDict (AList.delete ''200'' r))"
    using r by (auto simp: frame_responses_def AList.delete_eq intro: filter_cong)
  from list_all2_update [of d "''responses''" "JDict r" frame_responses, OF d(2) this]
  show ?thesis
    using d by (simp add: frame_operation_def same_but_def delete_200_def frame_responses_refl)
qed

lemma visit_frame: "frame_operation details (fst (snd (visit path method details s)))"
  by (simp add: visit_eq frame_operation_delete_200)
    (simp add: frame_operation_def same_but_refl)

lemma loop_methods_frame:
  "list_all2 (\<lambda>(k, v) (k', v'). k' = k \<and> frame_operation v v')
     ms (fst (snd (loop_methods path ms s)))"
proof (induction ms arbitrary: s)
  case Nil
  then show ?case by simp
next
  case (Cons a ms)
  obtain meth details where a: "a = (meth, details)" by (cases a)
  obtain e1 d1 s1 where v: "visit path meth details s = (e1, d1, s1)"
    by (cases "visit path meth details s")
  from visit_frame [of details path meth s] v have f: "frame_operation details d1" by simp
  have refl: "list_all2 (\<lambda>(k, v) (k', v'). k' = k \<and> frame_operation v v') ms ms"
    by (rule list_all2_same_keys_refl) (simp add: frame_operation_def same_but_refl)
  show ?case
  proof (cases e1)
    case (Some err)
    with a v f refl show ?thesis by simp
  next
    case None
    obtain e2 r2 s2 where l: "loop_methods path ms s1 = (e2, r2, s2)"
      by (cases "loop_methods path ms s1")
    with a v f None Cons.IH [of s1] show ?thesis by simp
  qed
qed

lemma loop_paths_frame:
  "list_all2 (\<lambda>(k, v) (k', v'). k' = k \<and> frame_methods v v')
     ps (fst (snd (loop_paths ps s)))"
proof (induction ps arbitrary: s)
  case Nil
  then show ?case by simp
next
  case (Cons a ps)
  obtain path methods where a: "a = (path, methods)" by (cases a)
  have refl: "list_all2 (\<lambda>(k, v) (k', v'). k' = k \<and> frame_methods v v') ps ps"
    by (rule list_all2_same_keys_refl) (simp add: frame_methods_def same_but_refl)
  show ?case
  proof (cases methods)
    case (JDict ms)
    obtain e1 m1 s1 where v: "loop_methods path ms s = (e1, m1, s1)"
      by (cases "loop_methods path ms s")
    from loop_methods_frame [of ms path s] v
    have f: "frame_methods (JDict ms) (JDict m1)"
      by (simp add: frame_methods_def same_but_def)
    show ?thesis
    proof (cases e1)
      case (Some err)
      with a JDict v f refl show ?thesis by simp
    next
      case None
      obtain e2 r2 s2 where l: "loop_paths ps s1 = (e2, r2, s2)"
        by (cases "loop_paths ps s1")
      with a JDict v f None Cons.IH [of s1] show ?thesis by simp
    qed
  qed (use a refl in \<open>simp_all add: frame_methods_def same_but_refl\<close>)
qed

lemma removable_op_has_both: "removable_op details \<Longrightarrow> has_201_and_200 details"
  by (auto simp: removable_op_def removable_def has_201_and_200_def map_of_Some_key
      split: json.splits option.splits)

lemma loop_methods_unchanged:
  "\<forall>details \<in> snd ` set ms. \<not> has_201_and_200 details \<Longrightarrow>
   snd (loop_methods path ms s) = (ms, s)"
proof (induction ms)
  case Nil
  then show ?case by simp
next
  case (Cons a ms)
  obtain meth details where a: "a = (meth, details)" by (cases a)
  with Cons.prems have "\<not> removable_op details"
    by (auto dest: removable_op_has_both)
  then have v: "visit path meth details s = (op_error details, details, s)"
    by (rule visit_not_removable)
  from Cons have "snd (loop_methods path ms s) = (ms, s)" by simp
  with a v show ?case
    by (cases "op_error details"; cases "loop_methods path ms s") auto
qed

lemma loop_paths_unchanged:
  "\<forall>details \<in> set (concat (map (\<lambda>(path, methods). map snd (items methods)) ps)).
      \<not> has_201_and_200 details \<Longrightarrow>
   snd (loop_paths ps s) = (ps, s)"
proof (induction ps)
  case Nil
  then show ?case by simp
next
  case (Cons a ps)
  obtain path methods where a: "a = (path, methods)" by (cases a)
  from Cons have ih: "snd (loop_paths ps s) = (ps, s)" by simp
  show ?case
  proof (cases methods)
    case (JDict ms)
    with Cons.prems a have "\<forall>details \<in> snd ` set ms. \<not> has_201_and_200 details" by auto
    then have "snd (loop_methods path ms s) = (ms, s)" by (rule loop_methods_unchanged)
    with a JDict ih show ?thesis
      by (cases "loop_methods path ms s"; cases "fst (loop_methods path ms s)";
          cases "loop_paths ps s") auto
  qed (use a in simp_all)
qed

subsection \<open>Counter and printed lines\<close>

lemma changed_methods_same: "changed_methods ms ms = []"
  by (induction ms) (auto simp: changed_methods_def)

lemma changed_methods_Cons:
  "changed_methods ((m, d) # ms) ((m', d') # ms') =
     (if d' \<noteq> d then [m] else []) @ changed_methods ms ms'"
  by (simp add: changed_methods_def)

lemma loop_methods_out:
  "loop_methods path ms s = (e, ms', s') \<Longrightarrow>
   out s' = out s @ map (\<lambda>method. removed_line method path) (changed_methods ms ms') \<and>
   count s' = count s + length (changed_methods ms ms')"
proof (induction ms arbitrary: s e ms' s')
  case Nil
  then show ?case by (simp add: changed_methods_def)
next
  case (Cons a ms)
  obtain meth details where a: "a = (meth, details)" by (cases a)
  show ?case
  proof (cases "removable_op details")
    case True
    then have v: "visit path meth details s = (None, delete_200 details,
        s\<lparr>count := count s + 1, out := out s @ [removed_line meth path]\<rparr>)"
      by (rule visit_removable)
    obtain e2 r2 s2 where l: "loop_methods path ms
        (s\<lparr>count := count s + 1, out := out s @ [removed_line meth path]\<rparr>) = (e2, r2, s2)"
      by (cases "loop_methods path ms
        (s\<lparr>count := count s + 1, out := out s @ [removed_line meth path]\<rparr>)")
    from Cons.IH [OF l] Cons.prems a v l delete_200_changes [OF True]
    show ?thesis by (auto simp: changed_methods_Cons)
  next
    case False
    then have v: "visit path meth details s = (op_error details, details, s)"
      by (rule visit_not_removable)
    obtain e2 r2 s2 where l: "loop_methods path ms s = (e2, r2, s2)"
      by (cases "loop_methods path ms s")
    from Cons.IH [OF l] Cons.prems a v l
    show ?thesis
      by (cases "op_error details") (auto simp: changed_methods_Cons changed_methods_same)
  qed
qed

lemma changed_paths_same: "changed_paths ps ps = []"
  by (induction ps) (auto simp: changed_paths_def changed_methods_same)

lemma changed_paths_Cons:
  "changed_paths ((p, m) # ps) ((p', m') # ps') =
     map (\<lambda>method. (method, p)) (changed_methods (items m) (items m')) @ changed_paths ps ps'"
  by (simp add: changed_paths_def)

lemma loop_paths_out:
  "loop_paths ps s = (e, ps', s') \<Longrightarrow>
   out s' = out s @ map (\<lambda>(method, path). removed_line method path) (changed_paths ps ps') \<and>
   count s' = count s + length (changed_paths ps ps')"
proof (induction ps arbitrary: s e ps' s')
  case Nil
  then show ?case by (simp add: changed_paths_def)
next
  case (Cons a ps)
  obtain path methods where a: "a = (path, methods)" by (cases a)
  show ?case
  proof (cases methods)
    case (JDict ms)
    obtain e1 m1 s1 where v: "loop_methods path ms s = (e1, m1, s1)"
      by (cases "loop_methods path ms s")
    note o = loop_methods_out [OF v]
    obtain e2 r2 s2 where l: "loop_paths ps s1 = (e2, r2, s2)"
      by (cases "loop_paths ps s1")
    from Cons.IH [OF l] Cons.prems a JDict v l o
    show ?thesis
      by (cases e1) (auto simp: changed_paths_Cons changed_paths_same comp_def)
  qed (use Cons.prems a in \<open>auto simp: changed_paths_Cons changed_paths_same changed_methods_same\<close>)
qed

lemma normalize_pass_out:
  assumes "normalize_pass spec = (e, spec', s)"
  shows "out s = map (\<lambda>(method, path). removed_line method path) (changed_operations spec spec')"
    and "count s = length (changed_operations spec spec')"
proof -
  have c: "changed_operations x y = changed_paths (paths_items x) (paths_items y)" for x y
    by (simp add: changed_operations_def)
  have "out s = map (\<lambda>(method, path). removed_line method path) (changed_operations spec spec')
      \<and> count s = length (changed_operations spec spec')"
  proof (cases spec)
    case (JDict root)
    show ?thesis
    proof (cases "map_of root ''paths''")
      case None
      with JDict assms show ?thesis by (auto simp: normalize_pass_def c changed_paths_same)
    next
      case (Some p)
      show ?thesis
      proof (cases p)
        case (JDict paths)
        obtain e1 ps' s' where l: "loop_paths paths \<lparr>count = 0, out = []\<rparr> = (e1, ps', s')"
          by (cases "loop_paths paths \<lparr>count = 0, out = []\<rparr>")
        from loop_paths_out [OF l] assms \<open>spec = JDict root\<close> Some JDict l
        show ?thesis
          by (auto simp: normalize_pass_def c paths_items_def dict_get_def update_conv')
      qed (use \<open>spec = JDict root\<close> Some assms in
            \<open>auto simp: normalize_pass_def c changed_paths_same\<close>)
    qed
  qed (use assms in \<open>auto simp: normalize_pass_def c changed_paths_same\<close>)
  then show "out s = map (\<lambda>(method, path). removed_line method path) (changed_operations spec spec')"
    and "count s = length (changed_operations spec spec')" by simp_all
qed

subsection \<open>Exceptions\<close>



lemma loop_paths_error:
  "(path, methods) \<in> set ps \<Longrightarrow> \<not> isinstance_dict methods \<Longrightarrow> fst (loop_paths ps s) \<noteq> None"
proof (induction ps arbitrary: s)
  case Nil
  then show ?case by simp
next
  case (Cons a ps)
  obtain p m where a: "a = (p, m)" by (cases a)
  show ?case
  proof (cases m)
    case (JDict ms)
    with Cons.prems a have in_rest: "(path, methods) \<in> set ps" by auto
    obtain e1 m1 s1 where v: "loop_methods p ms s = (e1, m1, s1)"
      by (cases "loop_methods p ms s")
    from Cons.IH [OF in_rest Cons.prems(2)] have "fst (loop_paths ps s1) \<noteq> None" .
    with a JDict v show ?thesis
      by (cases e1; cases "loop_paths ps s1") auto
  qed (use a in simp_all)
qed

lemma normalize_pass_paths_not_mapping:
  "map_of root ''paths'' = Some p \<Longrightarrow> \<not> isinstance_dict p \<Longrightarrow>
   normalize_pass (JDict root) = (Some AttributeError, JDict root, \<lparr>count = 0, out = []\<rparr>)"
  by (cases p) (simp_all add: normalize_pass_def)

lemma normalize_pass_path_not_mapping:
  "map_of root ''paths'' = Some (JDict paths) \<Longrightarrow> (path, methods) \<in> set paths \<Longrightarrow>
   \<not> isinstance_dict methods \<Longrightarrow> fst (normalize_pass (JDict root)) \<noteq> None"
  using loop_paths_error [of path methods paths "\<lparr>count = 0, out = []\<rparr>"]
  by (cases "loop_paths paths \<lparr>count = 0, out = []\<rparr>") (simp add: normalize_pass_def)

section \<open>The script as a whole\<close>


lemma main_stdout:
  assumes "fst (main json_load json_dump w) = None"
  shows "\<exists>t spec. files w ''swagger.json.new'' = Some t \<and> json_load t = Some spec \<and>
     stdout (snd (main json_load json_dump w)) =
       stdout w @ out (snd (snd (normalize_pass spec)))
       @ [fixed_line (count (snd (snd (normalize_pass spec))))]"
  using assms by (auto simp: main_def split: option.splits prod.splits if_splits)

lemma main_aborts_in_pass:
  assumes "files w ''swagger.json.new'' = Some t" and "json_load t = Some spec"
    and "fst (normalize_pass spec) \<noteq> None"
  shows "fst (main json_load json_dump w) = fst (normalize_pass spec)"
    and "files (snd (main json_load json_dump w)) = files w"
    and "stdout (snd (main json_load json_dump w)) = stdout w @ out (snd (snd (normalize_pass spec)))"
  using assms by (cases "normalize_pass spec"; auto simp: main_def)+

section \<open>The claims\<close>

subsection \<open>C1: when the 200 response is removed\<close>

text \<open>
  C1. Take an operation whose \<^verbatim>\<open>responses\<close> is a mapping with the keys \<^verbatim>\<open>'201'\<close> and
  \<^verbatim>\<open>'200'\<close>, the value at \<^verbatim>\<open>'200'\<close> being a mapping. Let \<open>content\<close> be the value at
  \<^verbatim>\<open>'content'\<close> of that mapping, or the empty mapping when the key is absent. When
  \<open>content\<close> is falsy, or is a mapping with a falsy value at \<^verbatim>\<open>'application/json'\<close>, the
  body of the loop deletes the key \<^verbatim>\<open>'200'\<close>, adds one to \<^verbatim>\<open>count\<close> and prints the line
  of the removal. In every other case it leaves the operation, the counter and the
  output as they are.
\<close>

theorem removal_condition_exact:
  assumes "map_of d ''responses'' = Some (JDict r)"
    and "''201'' \<in> fst ` set r"
    and "map_of r ''200'' = Some (JDict r200)"
  shows "visit path method (JDict d) s =
     (if (let content = (case map_of r200 ''content'' of None \<Rightarrow> JDict [] | Some c \<Rightarrow> c) in
            \<not> truthy content \<or>
            (\<exists>c v. content = JDict c \<and> map_of c ''application/json'' = Some v \<and> \<not> truthy v))
      then (None,
            JDict (AList.update ''responses'' (JDict (AList.delete ''200'' r)) d),
            s\<lparr>count := count s + 1, out := out s @ [removed_line method path]\<rparr>)
      else (None, JDict d, s))"
proof -
  have "visit path method (JDict d) s =
     (if content_is_empty (dict_get r200 ''content'' (JDict []))
      then (None,
            JDict (AList.update ''responses'' (JDict (AList.delete ''200'' r)) d),
            s\<lparr>count := count s + 1, out := out s @ [removed_line method path]\<rparr>)
      else (None, JDict d, s))"
    using assms by (simp add: visit_def fix_responses_dict)
  then show ?thesis
    unfolding content_is_empty_iff dict_get_def Let_def .
qed

theorem removal_condition_exact_witness:
  "visit ''/x'' ''post''
     (JDict [(''responses'',
        JDict [(''200'', JDict [(''content'',
                  JDict [(''application/json'', JDict [(''type'', JStr ''object'')])])]),
               (''201'', JDict [])])])
     \<lparr>count = 0, out = []\<rparr>
   = (None,
      JDict [(''responses'',
        JDict [(''200'', JDict [(''content'',
                  JDict [(''application/json'', JDict [(''type'', JStr ''object'')])])]),
               (''201'', JDict [])])],
      \<lparr>count = 0, out = []\<rparr>)
   \<and>
   visit ''/x'' ''post''
     (JDict [(''responses'',
        JDict [(''200'', JDict [(''content'', JDict [(''application/json'', JDict [])])]),
               (''201'', JDict [])])])
     \<lparr>count = 0, out = []\<rparr>
   = (None,
      JDict [(''responses'', JDict [(''201'', JDict [])])],
      \<lparr>count = 1, out = [''Removed empty 200 from POST /x'']\<rparr>)"
  using
    removal_condition_exact [of
      "[(''responses'',
        JDict [(''200'', JDict [(''content'',
                  JDict [(''application/json'', JDict [(''type'', JStr ''object'')])])]),
               (''201'', JDict [])])]"
      "[(''200'', JDict [(''content'',
                  JDict [(''application/json'', JDict [(''type'', JStr ''object'')])])]),
               (''201'', JDict [])]"
      "[(''content'', JDict [(''application/json'', JDict [(''type'', JStr ''object'')])])]"
      "''/x''" "''post''" "\<lparr>count = 0, out = []\<rparr>"]
    removal_condition_exact [of
      "[(''responses'',
        JDict [(''200'', JDict [(''content'', JDict [(''application/json'', JDict [])])]),
               (''201'', JDict [])])]"
      "[(''200'', JDict [(''content'', JDict [(''application/json'', JDict [])])]),
               (''201'', JDict [])]"
      "[(''content'', JDict [(''application/json'', JDict [])])]"
      "''/x''" "''post''" "\<lparr>count = 0, out = []\<rparr>"]
  by (simp add: AList.delete_eq removed_line_def upper_def char_upper_def)

subsection \<open>C2: nothing else is changed\<close>

text \<open>
  C2. Whatever the input document, the document that the loop leaves differs from it
  only by deleted \<^verbatim>\<open>'200'\<close> entries: the top-level keys and their values are the same
  except for the value of \<^verbatim>\<open>'paths'\<close>; there every path and every method is kept; an
  operation keeps every key, and its values are the same except for \<^verbatim>\<open>responses\<close>;
  and a \<^verbatim>\<open>responses\<close> mapping is either the same, or it had \<^verbatim>\<open>'201'\<close> and a \<^verbatim>\<open>'200'\<close>
  that met the removal condition and is now the same mapping without \<^verbatim>\<open>'200'\<close>.
\<close>

theorem only_200_entries_deleted: "frame_spec spec (fst (snd (normalize_pass spec)))"
proof (cases spec)
  case (JDict root)
  show ?thesis
  proof (cases "map_of root ''paths''")
    case None
    with JDict show ?thesis by (simp add: normalize_pass_def frame_spec_def same_but_refl)
  next
    case (Some p)
    show ?thesis
    proof (cases p)
      case (JDict paths)
      obtain e ps' s' where l: "loop_paths paths \<lparr>count = 0, out = []\<rparr> = (e, ps', s')"
        by (cases "loop_paths paths \<lparr>count = 0, out = []\<rparr>")
      from loop_paths_frame [of paths "\<lparr>count = 0, out = []\<rparr>"] l
      have f: "frame_paths (JDict paths) (JDict ps')"
        by (simp add: frame_paths_def same_but_def)
      have "frame_paths x x" for x by (simp add: frame_paths_def same_but_refl)
      from list_all2_update [of root "''paths''" "JDict paths" frame_paths, OF _ f this]
      show ?thesis
        using \<open>spec = JDict root\<close> Some JDict l
        by (simp add: normalize_pass_def frame_spec_def same_but_def)
    qed (use \<open>spec = JDict root\<close> Some in
          \<open>simp_all add: normalize_pass_def frame_spec_def same_but_refl\<close>)
  qed
qed (simp_all add: normalize_pass_def frame_spec_def same_but_refl)

theorem only_200_entries_deleted_witness:
  "frame_spec
     (JDict [(''openapi'', JStr ''3.0.1''),
             (''paths'', JDict [(''/x'', JDict [(''post'', JDict [(''summary'', JStr ''create''),
                (''responses'',
                   JDict [(''200'', JDict [(''content'', JDict [])]),
                          (''201'', JDict [(''description'', JStr ''Created'')])])])])])])
     (JDict [(''openapi'', JStr ''3.0.1''),
             (''paths'', JDict [(''/x'', JDict [(''post'', JDict [(''summary'', JStr ''create''),
                (''responses'',
                   JDict [(''201'', JDict [(''description'', JStr ''Created'')])])])])])])"
  using only_200_entries_deleted [of
     "JDict [(''openapi'', JStr ''3.0.1''),
             (''paths'', JDict [(''/x'', JDict [(''post'', JDict [(''summary'', JStr ''create''),
                (''responses'',
                   JDict [(''200'', JDict [(''content'', JDict [])]),
                          (''201'', JDict [(''description'', JStr ''Created'')])])])])])]"]
  by (simp add: eval_defs)

subsection \<open>C3: a second run changes nothing\<close>

text \<open>
  C3. Running the loop on the document that a first run has left gives that same
  document back, with \<^verbatim>\<open>count\<close> 0 and no printed line; the second run ends as the first
  did, so it completes whenever the first completed.
\<close>

theorem normalize_pass_idempotent:
  "normalize_pass (fst (snd (normalize_pass spec))) =
     (fst (normalize_pass spec), fst (snd (normalize_pass spec)), \<lparr>count = 0, out = []\<rparr>)"
proof (cases spec)
  case (JDict root)
  show ?thesis
  proof (cases "map_of root ''paths''")
    case None
    with JDict show ?thesis by (simp add: normalize_pass_def)
  next
    case (Some p)
    show ?thesis
    proof (cases p)
      case (JDict paths)
      obtain e ps' s' where l: "loop_paths paths \<lparr>count = 0, out = []\<rparr> = (e, ps', s')"
        by (cases "loop_paths paths \<lparr>count = 0, out = []\<rparr>")
      from loop_paths_again [OF l]
      have "loop_paths ps' \<lparr>count = 0, out = []\<rparr> = (e, ps', \<lparr>count = 0, out = []\<rparr>)" .
      with \<open>spec = JDict root\<close> Some JDict l show ?thesis
        by (simp add: normalize_pass_def update_conv')
    qed (use \<open>spec = JDict root\<close> Some in \<open>simp_all add: normalize_pass_def\<close>)
  qed
qed (simp_all add: normalize_pass_def)

theorem normalize_pass_idempotent_witness:
  "normalize_pass
     (JDict [(''paths'', JDict [(''/x'', JDict [(''post'', JDict [(''responses'',
        JDict [(''201'', JDict [(''content'',
                 JDict [(''application/json'', JDict [(''schema'', JDict [])])])])])])])])])
   = (None,
      JDict [(''paths'', JDict [(''/x'', JDict [(''post'', JDict [(''responses'',
        JDict [(''201'', JDict [(''content'',
                 JDict [(''application/json'', JDict [(''schema'', JDict [])])])])])])])])],
      \<lparr>count = 0, out = []\<rparr>)"
  using normalize_pass_idempotent [of
     "JDict [(''paths'', JDict [(''/x'', JDict [(''post'', JDict [(''responses'',
        JDict [(''200'', JDict [(''content'', JDict [])]),
               (''201'', JDict [(''content'',
                 JDict [(''application/json'', JDict [(''schema'', JDict [])])])])])])])])]"]
  by (simp add: eval_defs)

subsection \<open>C4: which shapes the guards cover\<close>




subsection \<open>C5: documents without a 201 and 200 pair\<close>

text \<open>
  C5. When no operation of the document has a \<^verbatim>\<open>responses\<close> mapping with both keys
  \<^verbatim>\<open>'201'\<close> and \<^verbatim>\<open>'200'\<close>, the loop leaves the document as it is, \<^verbatim>\<open>count\<close> is 0 and
  nothing is printed. A document without the key \<^verbatim>\<open>'paths'\<close> is such a document, and on
  it the loop completes.
\<close>

theorem no_201_200_pair_unchanged:
  "((\<forall>details \<in> set (operations spec). \<not> has_201_and_200 details) \<longrightarrow>
      snd (normalize_pass spec) = (spec, \<lparr>count = 0, out = []\<rparr>)) \<and>
   (map_of root ''paths'' = None \<longrightarrow>
      normalize_pass (JDict root) = (None, JDict root, \<lparr>count = 0, out = []\<rparr>))"
proof (intro conjI impI)
  assume "map_of root ''paths'' = None"
  then show "normalize_pass (JDict root) = (None, JDict root, \<lparr>count = 0, out = []\<rparr>)"
    by (simp add: normalize_pass_def)
next
  assume h: "\<forall>details \<in> set (operations spec). \<not> has_201_and_200 details"
  show "snd (normalize_pass spec) = (spec, \<lparr>count = 0, out = []\<rparr>)"
  proof (cases spec)
    case (JDict entries)
    show ?thesis
    proof (cases "map_of entries ''paths''")
      case None
      with JDict show ?thesis by (simp add: normalize_pass_def)
    next
      case (Some p)
      show ?thesis
      proof (cases p)
        case (JDict paths)
        with h \<open>spec = JDict entries\<close> Some
        have "snd (loop_paths paths \<lparr>count = 0, out = []\<rparr>) = (paths, \<lparr>count = 0, out = []\<rparr>)"
          by (intro loop_paths_unchanged) (simp add: operations_def paths_items_def dict_get_def)
        with \<open>spec = JDict entries\<close> Some JDict show ?thesis
          by (cases "loop_paths paths \<lparr>count = 0, out = []\<rparr>")
            (simp add: normalize_pass_def update_triv)
      qed (use \<open>spec = JDict entries\<close> Some in \<open>simp_all add: normalize_pass_def\<close>)
    qed
  qed (simp_all add: normalize_pass_def)
qed

theorem no_201_200_pair_unchanged_witness:
  "snd (normalize_pass
     (JDict [(''paths'', JDict [(''/x'', JDict [
        (''get'', JDict [(''responses'', JDict [(''200'', JDict [])])]),
        (''post'', JDict [(''responses'', JDict [(''201'', JDict [])])])])])]))
   = (JDict [(''paths'', JDict [(''/x'', JDict [
        (''get'', JDict [(''responses'', JDict [(''200'', JDict [])])]),
        (''post'', JDict [(''responses'', JDict [(''201'', JDict [])])])])])],
      \<lparr>count = 0, out = []\<rparr>) \<and>
   normalize_pass (JDict [(''openapi'', JStr ''3.0.1'')])
   = (None, JDict [(''openapi'', JStr ''3.0.1'')], \<lparr>count = 0, out = []\<rparr>)"
  using no_201_200_pair_unchanged [of
     "JDict [(''paths'', JDict [(''/x'', JDict [
        (''get'', JDict [(''responses'', JDict [(''200'', JDict [])])]),
        (''post'', JDict [(''responses'', JDict [(''201'', JDict [])])])])])]"
     "[(''openapi'', JStr ''3.0.1'')]"]
  by (simp add: operations_def paths_items_def dict_get_def has_201_and_200_def)

subsection \<open>C6: missing or unparsable input\<close>

text \<open>
  C6. When \<^verbatim>\<open>swagger.json.new\<close> does not exist, or \<^verbatim>\<open>json.load\<close> rejects its text, the
  run ends with the exception and the machine is as before: no file is written or
  changed and nothing is printed, whatever \<^verbatim>\<open>json.dump\<close> would write.
\<close>

theorem missing_or_invalid_input_aborts:
  "(files w ''swagger.json.new'' = None \<longrightarrow>
      main json_load json_dump w = (Some FileNotFoundError, w)) \<and>
   (files w ''swagger.json.new'' = Some t \<and> json_load t = None \<longrightarrow>
      main json_load json_dump w = (Some JSONDecodeError, w))"
  by (simp add: main_def)

theorem missing_or_invalid_input_aborts_witness:
  "main (Map.empty :: string \<Rightarrow> json option) (\<lambda>spec. [])
      \<lparr>files = Map.empty, read_only = {}, stdout = []\<rparr>
   = (Some FileNotFoundError, \<lparr>files = Map.empty, read_only = {}, stdout = []\<rparr>) \<and>
   main (Map.empty :: string \<Rightarrow> json option) (\<lambda>spec. [])
      \<lparr>files = [''swagger.json.new'' \<mapsto> ''{''], read_only = {}, stdout = []\<rparr>
   = (Some JSONDecodeError,
      \<lparr>files = [''swagger.json.new'' \<mapsto> ''{''], read_only = {}, stdout = []\<rparr>)"
  using
    missing_or_invalid_input_aborts [of "\<lparr>files = Map.empty, read_only = {}, stdout = []\<rparr>"
      "Map.empty :: string \<Rightarrow> json option" "\<lambda>spec. []" "[]"]
    missing_or_invalid_input_aborts [of
      "\<lparr>files = [''swagger.json.new'' \<mapsto> ''{''], read_only = {}, stdout = []\<rparr>"
      "Map.empty :: string \<Rightarrow> json option" "\<lambda>spec. []" "''{''"]
  by simp

subsection \<open>C7: the lines on standard output\<close>




subsection \<open>C8: what the summary reports\<close>

text \<open>
  C8, as stated, fails: the script counts removals only. A document with two
  operations and a document with none give the same output.
\<close>

theorem operation_count_not_reported_counterexample:
  "stdout (snd (main Some id
      \<lparr>files = [''swagger.json.new'' \<mapsto>
          JDict [(''paths'', JDict [(''/a'', JDict [(''get'', JDict []), (''put'', JDict [])])])]],
       read_only = {}, stdout = []\<rparr>))
     = [''Fixed 0 endpoints. Saved to swagger.json''] \<and>
   length (operations
      (JDict [(''paths'', JDict [(''/a'', JDict [(''get'', JDict []), (''put'', JDict [])])])])) = 2 \<and>
   stdout (snd (main Some id
      \<lparr>files = [''swagger.json.new'' \<mapsto> JDict [(''paths'', JDict [])]],
       read_only = {}, stdout = []\<rparr>))
     = [''Fixed 0 endpoints. Saved to swagger.json''] \<and>
   length (operations (JDict [(''paths'', JDict [])])) = 0"
  by (simp add: main_def normalize_pass_def visit_def fixed_line_def str_nat.simps digit_def
      operations_def paths_items_def dict_get_def)

text \<open>
  C8, amended. After the loop, a run that completes reports the removal count: the
  output is the lines of the removals followed by the line
  \<^verbatim>\<open>Fixed <count> endpoints. Saved to swagger.json\<close>, and \<^verbatim>\<open><count>\<close> is the number of
  removal lines. No number of operations is part of it.
\<close>

theorem summary_reports_removal_count:
  assumes "fst (main json_load json_dump w) = None"
  shows "\<exists>t spec. files w ''swagger.json.new'' = Some t \<and> json_load t = Some spec \<and>
     (let s = snd (snd (normalize_pass spec)) in
        stdout (snd (main json_load json_dump w)) =
          stdout w @ out s @ [''Fixed '' @ str_nat (count s) @ '' endpoints. Saved to swagger.json''] \<and>
        count s = length (out s))"
proof -
  from main_stdout [OF assms] obtain t spec where
    m: "files w ''swagger.json.new'' = Some t" "json_load t = Some spec"
      "stdout (snd (main json_load json_dump w)) =
       stdout w @ out (snd (snd (normalize_pass spec)))
       @ [fixed_line (count (snd (snd (normalize_pass spec))))]"
    by blast
  obtain e spec' s where n: "normalize_pass spec = (e, spec', s)"
    by (cases "normalize_pass spec")
  from normalize_pass_out [OF n] have "count s = length (out s)" by simp
  with m n show ?thesis by (simp add: Let_def fixed_line_def)
qed

theorem summary_reports_removal_count_witness:
  "stdout (snd (main Some id
      \<lparr>files = [''swagger.json.new'' \<mapsto>
         JDict [(''paths'', JDict [
           (''/a'', JDict [(''get'', JDict [(''responses'', JDict [(''200'', JDict [])])]),
                          (''post'', JDict [(''responses'',
                              JDict [(''200'', JDict []), (''201'', JDict [])])])]),
           (''/b'', JDict [(''put'', JDict [(''responses'',
                              JDict [(''201'', JDict []), (''200'', JDict [(''content'',
                                 JDict [(''application/json'', JNull)])])])])])])]],
       read_only = {}, stdout = [''starting'']\<rparr>))
   = [''starting'', ''Removed empty 200 from POST /a'', ''Removed empty 200 from PUT /b'',
      ''Fixed 2 endpoints. Saved to swagger.json'']"
proof -
  let ?w = "\<lparr>files = [''swagger.json.new'' \<mapsto>
         JDict [(''paths'', JDict [
           (''/a'', JDict [(''get'', JDict [(''responses'', JDict [(''200'', JDict [])])]),
                          (''post'', JDict [(''responses'',
                              JDict [(''200'', JDict []), (''201'', JDict [])])])]),
           (''/b'', JDict [(''put'', JDict [(''responses'',
                              JDict [(''201'', JDict []), (''200'', JDict [(''content'',
                                 JDict [(''application/json'', JNull)])])])])])])]],
       read_only = {}, stdout = [''starting'']\<rparr>"
  have h: "fst (main Some id ?w) = None"
    by (simp add: eval_defs)
  from summary_reports_removal_count [OF h] show ?thesis
    by (simp add: eval_defs)
qed

subsection \<open>C9: falsy content that is no mapping\<close>

text \<open>
  C9. Take an operation whose \<^verbatim>\<open>responses\<close> is a mapping with the keys \<^verbatim>\<open>'201'\<close> and
  \<^verbatim>\<open>'200'\<close>, the value at \<^verbatim>\<open>'200'\<close> being a mapping with the key \<^verbatim>\<open>'content'\<close>. When the
  value of \<^verbatim>\<open>'content'\<close> is falsy (\<^verbatim>\<open>null\<close>, \<^verbatim>\<open>false\<close>, \<^verbatim>\<open>0\<close>, \<^verbatim>\<open>""\<close>, \<^verbatim>\<open>[]\<close> among them), the
  body of the loop deletes \<^verbatim>\<open>'200'\<close>, counts and prints, and the result is the one it
  gives on the same operation with \<^verbatim>\<open>{}\<close> or with \<^verbatim>\<open>{"content": {}}\<close> at \<^verbatim>\<open>'200'\<close>.
\<close>

theorem falsy_content_removed:
  assumes "map_of d ''responses'' = Some (JDict r)"
    and "''201'' \<in> fst ` set r"
    and "map_of r ''200'' = Some (JDict r200)"
    and "map_of r200 ''content'' = Some c"
    and "\<not> truthy c"
  shows "visit path method (JDict d) s =
       (None, JDict (AList.update ''responses'' (JDict (AList.delete ''200'' r)) d),
        s\<lparr>count := count s + 1, out := out s @ [removed_line method path]\<rparr>) \<and>
     visit path method (JDict d) s =
       visit path method
         (JDict (AList.update ''responses'' (JDict (AList.update ''200'' (JDict []) r)) d)) s \<and>
     visit path method (JDict d) s =
       visit path method
         (JDict (AList.update ''responses''
            (JDict (AList.update ''200'' (JDict [(''content'', JDict [])]) r)) d)) s"
proof -
  let ?res = "(None, JDict (AList.update ''responses'' (JDict (AList.delete ''200'' r)) d),
        s\<lparr>count := count s + 1, out := out s @ [removed_line method path]\<rparr>)"
  have removed: "visit path method (JDict d') s =
      (None, JDict (AList.update ''responses'' (JDict (AList.delete ''200'' r')) d'),
        s\<lparr>count := count s + 1, out := out s @ [removed_line method path]\<rparr>)"
    if "map_of d' ''responses'' = Some (JDict r')" "''201'' \<in> fst ` set r'"
      "map_of r' ''200'' = Some (JDict x)" "content_is_empty (dict_get x ''content'' (JDict []))"
    for d' r' x
    using that by (simp add: visit_def fix_responses_dict)
  have 1: "visit path method (JDict d) s = ?res"
    using assms by (intro removed [of d r r200]) (simp_all add: content_is_empty_def dict_get_def)
  have upd: "visit path method
         (JDict (AList.update ''responses'' (JDict (AList.update ''200'' (JDict x) r)) d)) s = ?res"
    if "content_is_empty (dict_get x ''content'' (JDict []))" for x
  proof -
    have "visit path method
         (JDict (AList.update ''responses'' (JDict (AList.update ''200'' (JDict x) r)) d)) s =
      (None, JDict (AList.update ''responses''
          (JDict (AList.delete ''200'' (AList.update ''200'' (JDict x) r)))
          (AList.update ''responses'' (JDict (AList.update ''200'' (JDict x) r)) d)),
        s\<lparr>count := count s + 1, out := out s @ [removed_line method path]\<rparr>)"
      using assms(2) that
      by (intro removed [of _ _ x]) (simp_all add: update_conv' dom_update)
    then show ?thesis by (simp add: delete_update_same)
  qed
  from 1 upd [of "[]"] upd [of "[(''content'', JDict [])]"] show ?thesis
    by (simp add: content_is_empty_def dict_get_def)
qed

theorem falsy_content_removed_witness:
  "visit ''/x'' ''post'' (JDict [(''responses'', JDict [(''200'', JDict [(''content'', JNull)]), (''201'', JDict [])])]) \<lparr>count = 0, out = []\<rparr>
   = (None, JDict [(''responses'', JDict [(''201'', JDict [])])],
      \<lparr>count = 1, out = [''Removed empty 200 from POST /x'']\<rparr>) \<and>
   visit ''/x'' ''post'' (JDict [(''responses'', JDict [(''200'', JDict [(''content'', JBool False)]), (''201'', JDict [])])]) \<lparr>count = 0, out = []\<rparr>
   = (None, JDict [(''responses'', JDict [(''201'', JDict [])])],
      \<lparr>count = 1, out = [''Removed empty 200 from POST /x'']\<rparr>) \<and>
   visit ''/x'' ''post'' (JDict [(''responses'', JDict [(''200'', JDict [(''content'', JInt 0)]), (''201'', JDict [])])]) \<lparr>count = 0, out = []\<rparr>
   = (None, JDict [(''responses'', JDict [(''201'', JDict [])])],
      \<lparr>count = 1, out = [''Removed empty 200 from POST /x'']\<rparr>) \<and>
   visit ''/x'' ''post'' (JDict [(''responses'', JDict [(''200'', JDict [(''content'', JStr [])]), (''201'', JDict [])])]) \<lparr>count = 0, out = []\<rparr>
   = (None, JDict [(''responses'', JDict [(''201'', JDict [])])],
      \<lparr>count = 1, out = [''Removed empty 200 from POST /x'']\<rparr>) \<and>
   visit ''/x'' ''post'' (JDict [(''responses'', JDict [(''200'', JDict [(''content'', JList [])]), (''201'', JDict [])])]) \<lparr>count = 0, out = []\<rparr>
   = (None, JDict [(''responses'', JDict [(''201'', JDict [])])],
      \<lparr>count = 1, out = [''Removed empty 200 from POST /x'']\<rparr>)"
  using
    falsy_content_removed [of
      "[(''responses'', JDict [(''200'', JDict [(''content'', JNull)]), (''201'', JDict [])])]"
      "[(''200'', JDict [(''content'', JNull)]), (''201'', JDict [])]"
      "[(''content'', JNull)]" "JNull" "''/x''" "''post''" "\<lparr>count = 0, out = []\<rparr>"]
    falsy_content_removed [of
      "[(''responses'', JDict [(''200'', JDict [(''content'', JBool False)]), (''201'', JDict [])])]"
      "[(''200'', JDict [(''content'', JBool False)]), (''201'', JDict [])]"
      "[(''content'', JBool False)]" "JBool False" "''/x''" "''post''" "\<lparr>count = 0, out = []\<rparr>"]
    falsy_content_removed [of
      "[(''responses'', JDict [(''200'', JDict [(''content'', JInt 0)]), (''201'', JDict [])])]"
      "[(''200'', JDict [(''content'', JInt 0)]), (''201'', JDict [])]"
      "[(''content'', JInt 0)]" "JInt 0" "''/x''" "''post''" "\<lparr>count = 0, out = []\<rparr>"]
    falsy_content_removed [of
      "[(''responses'', JDict [(''200'', JDict [(''content'', JStr [])]), (''201'', JDict [])])]"
      "[(''200'', JDict [(''content'', JStr [])]), (''201'', JDict [])]"
      "[(''content'', JStr [])]" "JStr []" "''/x''" "''post''" "\<lparr>count = 0, out = []\<rparr>"]
    falsy_content_removed [of
      "[(''responses'', JDict [(''200'', JDict [(''content'', JList [])]), (''201'', JDict [])])]"
      "[(''200'', JDict [(''content'', JList [])]), (''201'', JDict [])]"
      "[(''content'', JList [])]" "JList []" "''/x''" "''post''" "\<lparr>count = 0, out = []\<rparr>"]
  by (simp add: AList.delete_eq removed_line_def upper_def char_upper_def)

subsection \<open>C10: the levels without a guard\<close>

text \<open>
  C10. When the loaded document is a mapping whose value at \<^verbatim>\<open>'paths'\<close> is no mapping,
  or is a mapping in which the value of some path is no mapping, the loop raises an
  exception, the run ends with that exception, and no file is written or changed.
\<close>

theorem unguarded_levels_abort:
  assumes "files w ''swagger.json.new'' = Some t" and "json_load t = Some (JDict root)"
    and "(\<exists>p. map_of root ''paths'' = Some p \<and> \<not> isinstance_dict p) \<or>
         (\<exists>paths path methods. map_of root ''paths'' = Some (JDict paths) \<and>
             (path, methods) \<in> set paths \<and> \<not> isinstance_dict methods)"
  shows "(\<exists>e. fst (normalize_pass (JDict root)) = Some e \<and>
              fst (main json_load json_dump w) = Some e) \<and>
         files (snd (main json_load json_dump w)) = files w"
proof -
  from assms(3) have "fst (normalize_pass (JDict root)) \<noteq> None"
    by (auto simp: normalize_pass_paths_not_mapping dest: normalize_pass_path_not_mapping)
  from main_aborts_in_pass [of w t json_load "JDict root" json_dump, OF assms(1,2) this] this
  show ?thesis by auto
qed

theorem unguarded_levels_abort_witness:
  "fst (main Some id
      \<lparr>files = [''swagger.json.new'' \<mapsto> JDict [(''paths'', JNull)]],
       read_only = {}, stdout = []\<rparr>) = Some AttributeError \<and>
   files (snd (main Some id
      \<lparr>files = [''swagger.json.new'' \<mapsto> JDict [(''paths'', JNull)]],
       read_only = {}, stdout = []\<rparr>)) ''swagger.json'' = None \<and>
   fst (main Some id
      \<lparr>files = [''swagger.json.new'' \<mapsto>
         JDict [(''paths'', JDict [(''/a'', JDict []), (''/b'', JList [])])]],
       read_only = {}, stdout = []\<rparr>) = Some AttributeError \<and>
   files (snd (main Some id
      \<lparr>files = [''swagger.json.new'' \<mapsto>
         JDict [(''paths'', JDict [(''/a'', JDict []), (''/b'', JList [])])]],
       read_only = {}, stdout = []\<rparr>)) ''swagger.json'' = None"
  using
    unguarded_levels_abort [of
      "\<lparr>files = [''swagger.json.new'' \<mapsto> JDict [(''paths'', JNull)]],
        read_only = {}, stdout = []\<rparr>"
      "JDict [(''paths'', JNull)]" Some "[(''paths'', JNull)]" id]
    unguarded_levels_abort [of
      "\<lparr>files = [''swagger.json.new'' \<mapsto>
         JDict [(''paths'', JDict [(''/a'', JDict []), (''/b'', JList [])])]],
        read_only = {}, stdout = []\<rparr>"
      "JDict [(''paths'', JDict [(''/a'', JDict []), (''/b'', JList [])])]" Some
      "[(''paths'', JDict [(''/a'', JDict []), (''/b'', JList [])])]" id]
  by (simp add: eval_defs)

end
